theory Spec2Isabelle
  imports Main "HOL-Library.Sublist"
begin

section \<open>Strings\<close>

text \<open>
  Python strings are modelled as \<^typ>\<open>string\<close>; a \<^typ>\<open>char\<close> stands for one code
  point below 256. The only operations of \<open>str\<close> the notebook uses are
  \<open>startswith\<close>, \<open>strip\<close>, concatenation, slicing from the start and truthiness.
\<close>

definition NL :: string where
  "NL = [CHR 0x0A]"

text \<open>\<open>s.startswith(p)\<close>: the characters of \<open>p\<close> are the first characters of \<open>s\<close>.\<close>

fun startswith :: "string \<Rightarrow> string \<Rightarrow> bool" where
  "startswith s [] = True"
| "startswith [] (p # ps) = False"
| "startswith (c # cs) (p # ps) = (c = p \<and> startswith cs ps)"

text \<open>Truthiness of a \<open>str\<close>: the empty string is false, every other string true.\<close>

definition truthy :: "string \<Rightarrow> bool" where
  "truthy s = (s \<noteq> [])"

text \<open>
  Truthiness of the result of \<open>get_attribute\<close>, which is \<open>None\<close> when the attribute is
  absent and the attribute's value otherwise.
\<close>

fun truthy_attr :: "string option \<Rightarrow> bool" where
  "truthy_attr None = False"
| "truthy_attr (Some s) = truthy s"

section \<open>Link collection (\<open>debug_all_links\<close>)\<close>

text \<open>
  \<open>links\<close> is the list of anchor elements that \<open>query_selector_all('a')\<close> returned, each
  given by the result of \<open>get_attribute('href')\<close> on it. The loop
  \<^verbatim>\<open>
  all_hrefs = []
  for link in links:
      href = await link.get_attribute('href')
      if href:
          all_hrefs.append(href)
  \<close>
  is a recursion over \<open>links\<close> that carries \<open>all_hrefs\<close>.
\<close>

fun collect_hrefs :: "string list \<Rightarrow> string option list \<Rightarrow> string list" where
  "collect_hrefs all_hrefs [] = all_hrefs"
| "collect_hrefs all_hrefs (href # links) =
     (if truthy_attr href then collect_hrefs (all_hrefs @ [the href]) links
      else collect_hrefs all_hrefs links)"

definition debug_all_links :: "string option list \<Rightarrow> string list" where
  "debug_all_links links = collect_hrefs [] links"

section \<open>URL filter\<close>

definition allowed_prefixes :: "string list" where
  "allowed_prefixes =
     [''https://help.moengage.com/hc/en-us/articles/'',
      ''https://developers.moengage.com/hc/en-us/articles/'',
      ''https://partners.moengage.com/hc/en-us/articles/'']"

text \<open>\<open>any(url.startswith(prefix) for prefix in allowed_prefixes)\<close>\<close>

definition any_prefix :: "string \<Rightarrow> bool" where
  "any_prefix url = list_ex (\<lambda>prefix. startswith url prefix) allowed_prefixes"

text \<open>
  \<open>rows\<close> is the list of the values \<open>row['URL']\<close> that the reader yields, in file order.
  \<^verbatim>\<open>
  filtered_links = []
  for row in reader:
      url = row['URL']
      if any(url.startswith(prefix) for prefix in allowed_prefixes):
          filtered_links.append(url)
  \<close>
\<close>

fun filter_rows :: "string list \<Rightarrow> string list \<Rightarrow> string list" where
  "filter_rows filtered_links [] = filtered_links"
| "filter_rows filtered_links (url # rows) =
     (if any_prefix url then filter_rows (filtered_links @ [url]) rows
      else filter_rows filtered_links rows)"

definition filtered_links :: "string list \<Rightarrow> string list" where
  "filtered_links rows = filter_rows [] rows"

text \<open>The input of the specification's first end-to-end example.\<close>

definition example_links :: "string list" where
  "example_links =
     [''/relative'',
      ''https://help.moengage.com/hc/en-us/articles/123-X'',
      ''javascript:void(0)'',
      ''https://help.moengage.com/hc/en-us/articles/123-X'']"

section \<open>Whitespace and \<open>strip\<close>\<close>

text \<open>
  The code points below 256 that \<open>str.strip()\<close> removes: tab, line feed, vertical tab,
  form feed, carriage return, the four separators \<open>0x1C\<close> to \<open>0x1F\<close>, space, next line
  and no-break space.
\<close>

definition whitespace :: "char list" where
  "whitespace =
     [CHR 0x09, CHR 0x0A, CHR 0x0B, CHR 0x0C, CHR 0x0D, CHR 0x1C, CHR 0x1D, CHR 0x1E,
      CHR 0x1F, CHR 0x20, CHR 0x85, CHR 0xA0]"

definition is_space :: "char \<Rightarrow> bool" where
  "is_space c = (c \<in> set whitespace)"

definition strip :: "string \<Rightarrow> string" where
  "strip s = rev (dropWhile is_space (rev (dropWhile is_space s)))"

section \<open>Section segmentation (\<open>scrape_article_with_sections\<close>)\<close>

text \<open>
  A direct child of the body container, given by the results of the three queries the
  loop makes on it: \<open>el.tagName.toLowerCase()\<close>, \<open>inner_text()\<close>, and
  \<open>get_attribute('src')\<close> on each element of \<open>query_selector_all('img')\<close>, in the order
  returned.
\<close>

record element =
  tag :: string
  inner_text :: string
  img_srcs :: "string option list"

text \<open>
  One \<open>print(f"\nSection: {current_section}\n{section_content.strip()}")\<close>: the two
  interpolated values, and the text that reaches the console.
\<close>

record Section =
  heading :: string
  content :: string

definition render_section :: "Section \<Rightarrow> string" where
  "render_section s = NL @ ''Section: '' @ heading s @ NL @ content s"

text \<open>The variables of the loop, and the sections printed so far.\<close>

record seg_state =
  current_section :: string
  section_content :: string
  printed :: "Section list"

definition print_section :: "seg_state \<Rightarrow> seg_state" where
  "print_section st =
     st\<lparr>printed := printed st @
          [\<lparr>heading = current_section st, content = strip (section_content st)\<rparr>]\<rparr>"

text \<open>The text \<open>f"[Image: {src}]\n"\<close>.\<close>

definition image_line :: "string \<Rightarrow> string" where
  "image_line src = ''[Image: '' @ src @ '']'' @ NL"

text \<open>
  \<^verbatim>\<open>
  for img in img_elements:
      src = await img.get_attribute('src')
      if src:
          section_content += f"[Image: {src}]\n"
  \<close>
\<close>

fun add_images :: "string \<Rightarrow> string option list \<Rightarrow> string" where
  "add_images sc [] = sc"
| "add_images sc (src # img_elements) =
     (if truthy_attr src then add_images (sc @ image_line (the src)) img_elements
      else add_images sc img_elements)"

text \<open>The body of \<open>for child in body_children\<close>.\<close>

definition step :: "seg_state \<Rightarrow> element \<Rightarrow> seg_state" where
  "step st child =
     (if tag child = ''h2'' then
        (let st1 = (if truthy (strip (section_content st))
                    then (print_section st)\<lparr>section_content := []\<rparr>
                    else st)
         in st1\<lparr>current_section := inner_text child\<rparr>)
      else
        (let block_text = inner_text child;
             st1 = (if truthy (strip block_text)
                    then st\<lparr>section_content := section_content st @ block_text @ NL\<rparr>
                    else st)
         in st1\<lparr>section_content := add_images (section_content st1) (img_srcs child)\<rparr>))"

fun seg_loop :: "seg_state \<Rightarrow> element list \<Rightarrow> seg_state" where
  "seg_loop st [] = st"
| "seg_loop st (child # body_children) = seg_loop (step st child) body_children"

definition intro_heading :: string where
  "intro_heading = ''Intro (before first H2)''"

definition seg_init :: seg_state where
  "seg_init = \<lparr>current_section = intro_heading, section_content = [], printed = []\<rparr>"

text \<open>The \<open>if section_content.strip(): print(...)\<close> after the loop.\<close>

definition flush :: "seg_state \<Rightarrow> Section list" where
  "flush st = (if truthy (strip (section_content st)) then printed (print_section st)
               else printed st)"

definition segment :: "element list \<Rightarrow> Section list" where
  "segment body_children = flush (seg_loop seg_init body_children)"

section \<open>Pages and the two scrapers\<close>

text \<open>
  What the scrapers read from a loaded page: the inner text of the element matching
  \<open>h6.article-title\<close> and the element matching \<open>div.article__body\<close>, each \<open>None\<close> when
  \<open>query_selector\<close> finds nothing. A navigation that fails raises; the exception leaves
  the function, after the lines printed so far. On a loaded page the queries are taken
  to answer.
\<close>

record body =
  body_text :: string
  body_children :: "element list"

record page =
  title_el :: "string option"
  body_el :: "body option"

datatype error = NavigationError

definition title_of :: "page \<Rightarrow> string" where
  "title_of pg = (case title_el pg of Some t \<Rightarrow> t | None \<Rightarrow> ''[No Title Found]'')"

text \<open>
  The result of a run is the list of \<open>print\<close> calls, one string each, and how the
  function ended: \<open>Inr ()\<close> for a return (the functions return nothing), \<open>Inl e\<close> for
  an exception.
\<close>

definition scrape_single_article :: "string \<Rightarrow> error + page \<Rightarrow> string list \<times> (error + unit)" where
  "scrape_single_article url loaded =
     (case loaded of
        Inl e \<Rightarrow> ([''Scraping: '' @ url], Inl e)
      | Inr pg \<Rightarrow>
          ([''Scraping: '' @ url,
            NL @ ''Title:'',
            title_of pg,
            NL @ ''Body Text (first 500 chars):'',
            take 500 (case body_el pg of Some b \<Rightarrow> body_text b | None \<Rightarrow> ''[No Body Found]'')],
           Inr ()))"

definition scrape_article_with_sections ::
  "string \<Rightarrow> error + page \<Rightarrow> string list \<times> (error + unit)" where
  "scrape_article_with_sections url loaded =
     (case loaded of
        Inl e \<Rightarrow> ([''Scraping: '' @ url], Inl e)
      | Inr pg \<Rightarrow>
          (case body_el pg of
             None \<Rightarrow>
               ([''Scraping: '' @ url, NL @ ''Title:'' @ NL @ title_of pg, ''[No Body Found]''],
                Inr ())
           | Some b \<Rightarrow>
               ([''Scraping: '' @ url, NL @ ''Title:'' @ NL @ title_of pg]
                  @ map render_section (segment (body_children b)),
                Inr ())))"

text \<open>
  The console text of a run: \<open>print\<close> writes its argument and a line break.
\<close>

definition console :: "string list \<Rightarrow> string" where
  "console prints = concat (map (\<lambda>line. line @ NL) prints)"

section \<open>What one child contributes\<close>

text \<open>
  The notions the statements below are phrased with. \<open>nonempty_values\<close> keeps, in
  order, the attribute values that are present and not the empty string. A child
  contributes content when its text is not blank or one of its images has a non-empty
  \<open>src\<close>; \<open>block_of\<close> is the text a child that is not a heading is expected to add to
  the section: its own text and a line break when the text is not blank, then one line
  for every image with a non-empty \<open>src\<close>, in the order of the images.
\<close>

fun nonempty_values :: "string option list \<Rightarrow> string list" where
  "nonempty_values [] = []"
| "nonempty_values (None # attrs) = nonempty_values attrs"
| "nonempty_values (Some v # attrs) =
     (if v = [] then nonempty_values attrs else v # nonempty_values attrs)"

definition contributes :: "element \<Rightarrow> bool" where
  "contributes c = (strip (inner_text c) \<noteq> [] \<or> list_ex truthy_attr (img_srcs c))"

definition block_of :: "element \<Rightarrow> string" where
  "block_of c =
     (if strip (inner_text c) = [] then [] else inner_text c @ NL)
     @ concat (map image_line (nonempty_values (img_srcs c)))"

text \<open>A string that is not empty and has no whitespace at either end.\<close>

definition trimmed :: "string \<Rightarrow> bool" where
  "trimmed s = (s \<noteq> [] \<and> \<not> is_space (hd s) \<and> \<not> is_space (last s))"

text \<open>
  The invariant of the loop: the accumulated content is never blank without being empty.
\<close>

definition clean :: "seg_state \<Rightarrow> bool" where
  "clean st = (strip (section_content st) = [] \<longrightarrow> section_content st = [])"

text \<open>The body of the specification's second end-to-end example.\<close>

definition example_body :: "element list" where
  "example_body =
     [\<lparr>tag = ''p'', inner_text = ''Intro text'', img_srcs = []\<rparr>,
      \<lparr>tag = ''h2'', inner_text = ''Setup'', img_srcs = []\<rparr>,
      \<lparr>tag = ''p'', inner_text = ''Step1'', img_srcs = []\<rparr>,
      \<lparr>tag = ''div'', inner_text = [], img_srcs = [Some ''x.png'']\<rparr>,
      \<lparr>tag = ''h2'', inner_text = ''FAQ'', img_srcs = []\<rparr>,
      \<lparr>tag = ''p'', inner_text = ''Q1'', img_srcs = []\<rparr>]"

section \<open>Properties of \<open>strip\<close>\<close>

lemma all_dropWhile: "(\<forall>x \<in> set (dropWhile P s). P x) \<longleftrightarrow> (\<forall>x \<in> set s. P x)"
  by (induction s) auto

lemma strip_empty_iff: "strip s = [] \<longleftrightarrow> (\<forall>c \<in> set s. is_space c)"
  by (simp add: strip_def all_dropWhile)

lemma strip_fixed:
  assumes "s \<noteq> []" "\<not> is_space (hd s)" "\<not> is_space (last s)"
  shows "strip s = s"
proof -
  from assms(1,2) have "dropWhile is_space s = s"
    by (cases s) simp_all
  moreover from assms(1,3) have "dropWhile is_space (rev s) = rev s"
    by (cases "rev s") (simp_all add: last_rev[symmetric] hd_rev)
  ultimately show ?thesis by (simp add: strip_def)
qed

lemma last_strip: "strip s \<noteq> [] \<Longrightarrow> \<not> is_space (last (strip s))"
proof -
  assume a: "strip s \<noteq> []"
  let ?e = "dropWhile is_space (rev (dropWhile is_space s))"
  from a have "?e \<noteq> []" by (simp add: strip_def)
  then have "\<not> is_space (hd ?e)" by (rule hd_dropWhile)
  moreover have "last (strip s) = hd ?e"
    using \<open>?e \<noteq> []\<close> by (simp add: strip_def last_rev)
  ultimately show ?thesis by simp
qed

lemma hd_strip: "strip s \<noteq> [] \<Longrightarrow> \<not> is_space (hd (strip s))"
proof -
  assume a: "strip s \<noteq> []"
  let ?d = "dropWhile is_space s"
  from a have d: "?d \<noteq> []" by (auto simp: strip_def dest: set_dropWhileD)
  then have nd: "\<not> is_space (hd ?d)" by (rule hd_dropWhile)
  have "rev ?d = takeWhile is_space (rev ?d) @ dropWhile is_space (rev ?d)" by simp
  then have "?d = strip s @ rev (takeWhile is_space (rev ?d))"
    unfolding strip_def by (metis rev_append rev_rev_ident)
  with a have "hd ?d = hd (strip s)" by (metis hd_append2)
  with nd show ?thesis by simp
qed

lemma strip_idem: "strip (strip s) = strip s"
proof (cases "strip s = []")
  case True
  have "strip [] = []" by (simp add: strip_def)
  with True show ?thesis by simp
next
  case False
  then show ?thesis by (simp add: strip_fixed hd_strip last_strip)
qed

section \<open>Properties of the URL filter\<close>

lemma startswith_prefix: "startswith s p = prefix p s"
  by (induction s p rule: startswith.induct) auto

lemma filter_rows_filter: "filter_rows acc rows = acc @ filter any_prefix rows"
  by (induction rows arbitrary: acc) simp_all

lemma filtered_links_filter: "filtered_links rows = filter any_prefix rows"
  by (simp add: filtered_links_def filter_rows_filter)

lemma filtered_links_example:
  "filtered_links example_links =
     [''https://help.moengage.com/hc/en-us/articles/123-X'',
      ''https://help.moengage.com/hc/en-us/articles/123-X'']"
  by (simp add: filtered_links_def example_links_def any_prefix_def allowed_prefixes_def)

lemma any_prefix_iff:
  "any_prefix url \<longleftrightarrow> (\<exists>p \<in> set allowed_prefixes. \<exists>rest. url = p @ rest)"
  by (auto simp: any_prefix_def list_ex_iff startswith_prefix prefix_def)

lemma count_list_filter:
  "count_list (filter P xs) x = (if P x then count_list xs x else 0)"
  by (induction xs) auto

text \<open>
  C1 (as amended). The filter loop has no membership test, so it removes no duplicate:
  no URL occurs more often in the output than in the input, hence a duplicate-free input
  gives a duplicate-free output, and the input of end-to-end example 1 yields two
  entries, both \<open>https://help.moengage.com/hc/en-us/articles/123-X\<close>.
\<close>

theorem filtered_links_no_new_duplicates:
  "count_list (filtered_links rows) url \<le> count_list rows url
   \<and> (distinct rows \<longrightarrow> distinct (filtered_links rows))
   \<and> filtered_links example_links =
       [''https://help.moengage.com/hc/en-us/articles/123-X'',
        ''https://help.moengage.com/hc/en-us/articles/123-X'']"
proof -
  have "count_list (filtered_links rows) url \<le> count_list rows url"
    by (simp add: filtered_links_filter count_list_filter)
  moreover have "distinct rows \<longrightarrow> distinct (filtered_links rows)"
    by (simp add: filtered_links_filter)
  ultimately show ?thesis
    using filtered_links_example by simp
qed

theorem filtered_links_no_new_duplicates_witness:
  "distinct [''/relative'', ''https://help.moengage.com/hc/en-us/articles/123-X'']
   \<and> distinct (filtered_links
         [''/relative'', ''https://help.moengage.com/hc/en-us/articles/123-X''])"
  using filtered_links_no_new_duplicates
    [of "[''/relative'', ''https://help.moengage.com/hc/en-us/articles/123-X'']"]
  by simp

text \<open>
  C1 (as stated) fails: on the input of end-to-end example 1 the output is not the
  one-entry list and it contains the article URL twice.
\<close>

theorem filtered_links_dedup_counterexample:
  "filtered_links example_links \<noteq> [''https://help.moengage.com/hc/en-us/articles/123-X'']
   \<and> \<not> distinct (filtered_links example_links)"
  by (simp add: filtered_links_example)

text \<open>
  C2. Every URL in the filter's output starts with one of the three allowlisted
  literal prefixes, a URL failing the prefix test is never in the output, and an input
  of non-matching links only yields the empty list.
\<close>

theorem filtered_links_prefix:
  "length allowed_prefixes = 3
   \<and> (\<forall>url \<in> set (filtered_links rows).
         \<exists>p \<in> set allowed_prefixes. \<exists>rest. url = p @ rest)
   \<and> (\<forall>url. \<not> any_prefix url \<longrightarrow> url \<notin> set (filtered_links rows))
   \<and> ((\<forall>url \<in> set rows. \<not> any_prefix url) \<longrightarrow> filtered_links rows = [])"
proof -
  have "length allowed_prefixes = 3"
    by (simp add: allowed_prefixes_def)
  moreover have "\<forall>url \<in> set (filtered_links rows).
      \<exists>p \<in> set allowed_prefixes. \<exists>rest. url = p @ rest"
    using any_prefix_iff by (simp add: filtered_links_filter)
  moreover have "\<forall>url. \<not> any_prefix url \<longrightarrow> url \<notin> set (filtered_links rows)"
    by (simp add: filtered_links_filter)
  moreover have "(\<forall>url \<in> set rows. \<not> any_prefix url) \<longrightarrow> filtered_links rows = []"
    by (simp add: filtered_links_filter filter_empty_conv)
  ultimately show ?thesis by blast
qed

theorem filtered_links_prefix_witness:
  "\<not> any_prefix ''/relative'' \<and> \<not> any_prefix ''javascript:void(0)''
   \<and> filtered_links [''/relative'', ''javascript:void(0)''] = []
   \<and> ''https://help.moengage.com/hc/en-us/articles/123-X'' \<in> set (filtered_links example_links)
   \<and> (\<exists>p \<in> set allowed_prefixes. \<exists>rest.
         ''https://help.moengage.com/hc/en-us/articles/123-X'' = p @ rest)"
  using filtered_links_prefix [of "[''/relative'', ''javascript:void(0)'']"]
    filtered_links_prefix [of example_links]
  by (simp add: any_prefix_def allowed_prefixes_def filtered_links_example)

text \<open>
  C7. The filter is idempotent: applied to its own output it returns that output.
\<close>

theorem filtered_links_idempotent:
  "filtered_links (filtered_links rows) = filtered_links rows"
  by (simp add: filtered_links_filter)

text \<open>
  C9. The output is exactly the subsequence of the input entries that pass the prefix
  test, in input order, and a passing URL occurs in the output as often as in the input.
\<close>

theorem filtered_links_subsequence:
  "filtered_links rows = filter any_prefix rows
   \<and> subseq (filtered_links rows) rows
   \<and> count_list (filtered_links rows) url = (if any_prefix url then count_list rows url else 0)"
  by (simp add: filtered_links_filter count_list_filter)

section \<open>Properties of the link collector\<close>

lemma collect_hrefs_filter:
  "collect_hrefs acc links = acc @ map the (filter truthy_attr links)"
  by (induction links arbitrary: acc) simp_all

lemma debug_all_links_filter:
  "debug_all_links links = map the (filter truthy_attr links)"
  by (simp add: debug_all_links_def collect_hrefs_filter)

lemma filter_truthy_attr: "map the (filter truthy_attr attrs) = nonempty_values attrs"
  by (induction attrs rule: nonempty_values.induct) (simp_all add: truthy_def)

lemma truthy_attr_iff: "truthy_attr a \<longleftrightarrow> (\<exists>h. a = Some h \<and> h \<noteq> [])"
  by (cases a) (simp_all add: truthy_def)

text \<open>
  C10. The collected list never contains the empty string; an anchor whose \<open>href\<close> is
  the empty string is skipped exactly like an anchor without \<open>href\<close>; every other
  \<open>href\<close> value is kept, in document order.
\<close>

theorem debug_all_links_nonempty:
  "[] \<notin> set (debug_all_links links)
   \<and> debug_all_links (pre @ Some [] # post) = debug_all_links (pre @ post)
   \<and> debug_all_links (pre @ None # post) = debug_all_links (pre @ post)
   \<and> debug_all_links links = nonempty_values links"
proof -
  have "[] \<notin> set (debug_all_links links)"
    by (auto simp: debug_all_links_filter truthy_attr_iff)
  moreover have "debug_all_links (pre @ Some [] # post) = debug_all_links (pre @ post)"
    by (simp add: debug_all_links_filter truthy_def)
  moreover have "debug_all_links (pre @ None # post) = debug_all_links (pre @ post)"
    by (simp add: debug_all_links_filter)
  moreover have "debug_all_links links = nonempty_values links"
    by (simp add: debug_all_links_filter filter_truthy_attr)
  ultimately show ?thesis by blast
qed

section \<open>Properties of the segmenter\<close>

lemma add_images_eq:
  "add_images sc imgs = sc @ concat (map image_line (nonempty_values imgs))"
  by (induction imgs arbitrary: sc rule: nonempty_values.induct) (simp_all add: truthy_def)

lemma step_other:
  "tag c \<noteq> ''h2'' \<Longrightarrow> step st c = st\<lparr>section_content := section_content st @ block_of c\<rparr>"
  by (simp add: step_def block_of_def add_images_eq truthy_def Let_def)

lemma step_h2:
  "tag c = ''h2'' \<Longrightarrow>
   step st c = \<lparr>current_section = inner_text c,
                section_content = (if strip (section_content st) = [] then section_content st else []),
                printed = flush st\<rparr>"
  by (simp add: step_def flush_def print_section_def truthy_def Let_def)

lemma not_space_bracket: "\<not> is_space CHR ''[''"
  by (simp add: is_space_def whitespace_def)

lemma strip_image_line: "strip (image_line src @ s) \<noteq> []"
  using not_space_bracket by (auto simp: strip_empty_iff image_line_def)

lemma srcs_empty_iff:
  "nonempty_values imgs = [] \<longleftrightarrow> \<not> list_ex truthy_attr imgs"
  by (induction imgs rule: nonempty_values.induct) (simp_all add: truthy_def)

lemma image_lines_empty_iff:
  "concat (map image_line srcs) = [] \<longleftrightarrow> srcs = []"
  by (cases srcs) (simp_all add: image_line_def)

lemma strip_Nil: "strip [] = []"
  by (simp add: strip_def)

lemma block_of_empty_iff:
  "block_of c = [] \<longleftrightarrow> strip (inner_text c) = [] \<and> nonempty_values (img_srcs c) = []"
  using image_lines_empty_iff [of "nonempty_values (img_srcs c)"]
  by (auto simp: block_of_def NL_def)

lemma contributes_iff: "contributes c \<longleftrightarrow> block_of c \<noteq> []"
  by (simp add: contributes_def block_of_empty_iff srcs_empty_iff)

lemma strip_append_empty_iff: "strip (a @ b) = [] \<longleftrightarrow> strip a = [] \<and> strip b = []"
  by (auto simp: strip_empty_iff)

lemma strip_image_lines: "srcs \<noteq> [] \<Longrightarrow> strip (concat (map image_line srcs)) \<noteq> []"
  by (cases srcs) (simp_all add: strip_image_line)

lemma strip_block_of: "strip (block_of c) = [] \<longleftrightarrow> block_of c = []"
proof
  assume a: "strip (block_of c) = []"
  then have "strip (inner_text c) = []"
    by (auto simp: block_of_def strip_append_empty_iff split: if_splits)
  moreover from a have "nonempty_values (img_srcs c) = []"
    using strip_image_lines [of "nonempty_values (img_srcs c)"]
    by (auto simp: block_of_def strip_append_empty_iff split: if_splits)
  ultimately show "block_of c = []" by (simp add: block_of_empty_iff)
next
  assume "block_of c = []"
  then show "strip (block_of c) = []" by (simp add: strip_Nil)
qed

lemma strip_blocks: "strip (concat (map block_of cs)) = [] \<longleftrightarrow> (\<forall>c \<in> set cs. \<not> contributes c)"
  by (induction cs) (simp_all add: strip_append_empty_iff strip_block_of contributes_iff strip_Nil)

lemma clean_init: "clean seg_init"
  by (simp add: clean_def seg_init_def strip_Nil)

lemma clean_step: "clean st \<Longrightarrow> clean (step st c)"
  by (cases "tag c = ''h2''")
     (auto simp: clean_def step_other step_h2 strip_append_empty_iff strip_block_of)

lemma clean_loop: "clean st \<Longrightarrow> clean (seg_loop st cs)"
  by (induction cs arbitrary: st) (simp_all add: clean_step)

lemma seg_loop_append: "seg_loop st (xs @ ys) = seg_loop (seg_loop st xs) ys"
  by (induction xs arbitrary: st) simp_all

lemma seg_loop_others:
  "\<forall>c \<in> set cs. tag c \<noteq> ''h2'' \<Longrightarrow>
   seg_loop st cs = st\<lparr>section_content := section_content st @ concat (map block_of cs)\<rparr>"
  by (induction cs arbitrary: st) (simp_all add: step_other)

lemma flush_blocks:
  "flush \<lparr>current_section = h, section_content = concat (map block_of cs), printed = ps\<rparr> =
     ps @ (if \<exists>c \<in> set cs. contributes c
           then [\<lparr>heading = h, content = strip (concat (map block_of cs))\<rparr>] else [])"
  by (simp add: flush_def print_section_def truthy_def strip_blocks)

lemma segment_no_heading:
  assumes "\<forall>c \<in> set cs. tag c \<noteq> ''h2''"
  shows "segment cs =
     (if \<exists>c \<in> set cs. contributes c
      then [\<lparr>heading = intro_heading, content = strip (concat (map block_of cs))\<rparr>] else [])"
  using flush_blocks [of intro_heading cs "[]"]
  by (simp add: segment_def seg_loop_others [OF assms] seg_init_def)

lemma segment_last_heading:
  assumes h: "tag h = ''h2''" and post: "\<forall>c \<in> set post. tag c \<noteq> ''h2''"
  shows "segment (pre @ h # post) =
     segment pre @
     (if \<exists>c \<in> set post. contributes c
      then [\<lparr>heading = inner_text h, content = strip (concat (map block_of post))\<rparr>] else [])"
proof -
  let ?st = "seg_loop seg_init pre"
  have "clean ?st" by (simp add: clean_loop clean_init)
  then have "step ?st h = \<lparr>current_section = inner_text h, section_content = [], printed = segment pre\<rparr>"
    by (simp add: step_h2 [OF h] clean_def segment_def)
  then have "seg_loop seg_init (pre @ h # post) =
      \<lparr>current_section = inner_text h, section_content = concat (map block_of post),
       printed = segment pre\<rparr>"
    by (simp add: seg_loop_append seg_loop_others [OF post])
  then show ?thesis
    by (simp add: segment_def flush_blocks)
qed

lemma two_headings:
  assumes "tag h1 = ''h2''" and "tag h2 = ''h2''"
  shows "step (step st h1) h2 = step st h2"
  using assms by (simp add: step_h2 flush_def print_section_def truthy_def strip_Nil)

lemma segment_two_headings:
  assumes "tag h1 = ''h2''" and "tag h2 = ''h2''"
  shows "segment (pre @ h1 # h2 # post) = segment (pre @ h2 # post)"
  by (simp add: segment_def seg_loop_append two_headings [OF assms])

lemma headings_loop:
  "\<exists>hs. map heading (flush (seg_loop st cs)) = map heading (printed st) @ hs
        \<and> subseq hs (current_section st # map inner_text (filter (\<lambda>c. tag c = ''h2'') cs))"
proof (induction cs arbitrary: st)
  case Nil
  show ?case by (auto simp: flush_def print_section_def)
next
  case (Cons c cs)
  from Cons.IH [of "step st c"] obtain hs where
    hs: "map heading (flush (seg_loop (step st c) cs)) = map heading (printed (step st c)) @ hs"
      "subseq hs (current_section (step st c) # map inner_text (filter (\<lambda>c. tag c = ''h2'') cs))"
    by blast
  show ?case
  proof (cases "tag c = ''h2''")
    case False
    with hs show ?thesis by (simp add: step_other)
  next
    case True
    show ?thesis
    proof (cases "truthy (strip (section_content st))")
      case t: True
      with True hs have "map heading (flush (seg_loop st (c # cs))) = map heading (printed st) @ current_section st # hs"
        by (simp add: step_h2 flush_def print_section_def)
      moreover from True hs have "subseq (current_section st # hs) (current_section st # map inner_text (filter (\<lambda>c. tag c = ''h2'') (c # cs)))"
        by (simp add: step_h2)
      ultimately show ?thesis by blast
    next
      case f: False
      with True hs have "map heading (flush (seg_loop st (c # cs))) = map heading (printed st) @ hs"
        by (simp add: step_h2 flush_def print_section_def)
      moreover from True hs have "subseq hs (current_section st # map inner_text (filter (\<lambda>c. tag c = ''h2'') (c # cs)))"
        by (simp add: step_h2 list_emb_Cons)
      ultimately show ?thesis by blast
    qed
  qed
qed

lemma segment_headings:
  "subseq (map heading (segment cs))
     (intro_heading # map inner_text (filter (\<lambda>c. tag c = ''h2'') cs))"
  using headings_loop [of seg_init cs] by (simp add: segment_def seg_init_def)

lemma segment_headings_first:
  assumes "tag h = ''h2''"
  shows "subseq (map heading (segment (h # cs)))
     (map inner_text (filter (\<lambda>c. tag c = ''h2'') (h # cs)))"
  using headings_loop [of "step seg_init h" cs] assms
  by (simp add: segment_def step_h2 seg_init_def flush_def truthy_def strip_Nil)

lemma flush_trimmed:
  assumes "\<forall>s \<in> set (printed st). trimmed (content s)"
  shows "\<forall>s \<in> set (flush st). trimmed (content s)"
  using assms
  by (auto simp: flush_def print_section_def truthy_def trimmed_def hd_strip last_strip)

lemma loop_trimmed:
  "\<forall>s \<in> set (printed st). trimmed (content s) \<Longrightarrow>
   \<forall>s \<in> set (flush (seg_loop st cs)). trimmed (content s)"
proof (induction cs arbitrary: st)
  case Nil
  then show ?case using flush_trimmed by simp
next
  case (Cons c cs)
  have "\<forall>s \<in> set (printed (step st c)). trimmed (content s)"
    using Cons.prems flush_trimmed [of st]
    by (cases "tag c = ''h2''") (simp_all add: step_h2 step_other)
  then show ?case using Cons.IH by simp
qed

lemma segment_trimmed: "\<forall>s \<in> set (segment cs). trimmed (content s)"
  using loop_trimmed [of seg_init cs] by (simp add: segment_def seg_init_def)

lemma segment_heading_origin:
  assumes "s \<in> set (segment cs)"
  shows "heading s = intro_heading \<or> (\<exists>c \<in> set cs. tag c = ''h2'' \<and> heading s = inner_text c)"
proof -
  from assms have "heading s \<in> set (map heading (segment cs))" by simp
  with segment_headings [of cs] obtain y where
    "y \<in> set (intro_heading # map inner_text (filter (\<lambda>c. tag c = ''h2'') cs))" "heading s = y"
    by (rule list_emb_set)
  then show ?thesis by auto
qed

lemma segment_example:
  "segment example_body =
     [\<lparr>heading = ''Intro (before first H2)'', content = ''Intro text''\<rparr>,
      \<lparr>heading = ''Setup'', content = ''Step1'' @ NL @ ''[Image: x.png]''\<rparr>,
      \<lparr>heading = ''FAQ'', content = ''Q1''\<rparr>]"
  by (simp add: segment_def example_body_def seg_init_def step_def flush_def print_section_def
      truthy_def strip_def is_space_def whitespace_def intro_heading_def NL_def image_line_def)

text \<open>
  C3. The headings of the emitted sections, in the order of emission, form a subsequence
  of the intro sentinel followed by the texts of the \<open>h2\<close> children in document order,
  so a body with N headings yields at most N + 1 sections and the intro section, when
  emitted, is the first. After the last child a final section is emitted if and only if
  a child after the last heading (any child, when there is no heading) contributes
  content; it carries the last heading's text (the sentinel, when there is no heading)
  and follows the sections emitted up to that heading.
\<close>

theorem segment_order:
  "subseq (map heading (segment cs))
     (intro_heading # map inner_text (filter (\<lambda>c. tag c = ''h2'') cs))
   \<and> length (segment cs) \<le> Suc (length (filter (\<lambda>c. tag c = ''h2'') cs))
   \<and> ((\<forall>c \<in> set cs. tag c \<noteq> ''h2'') \<longrightarrow>
        segment cs =
          (if \<exists>c \<in> set cs. contributes c
           then [\<lparr>heading = intro_heading, content = strip (concat (map block_of cs))\<rparr>]
           else []))
   \<and> (tag h = ''h2'' \<and> (\<forall>c \<in> set post. tag c \<noteq> ''h2'') \<longrightarrow>
        segment (pre @ h # post) =
          segment pre @
          (if \<exists>c \<in> set post. contributes c
           then [\<lparr>heading = inner_text h, content = strip (concat (map block_of post))\<rparr>]
           else []))"
proof -
  have "length (map heading (segment cs))
      \<le> length (intro_heading # map inner_text (filter (\<lambda>c. tag c = ''h2'') cs))"
    using segment_headings by (rule list_emb_length)
  then have "length (segment cs) \<le> Suc (length (filter (\<lambda>c. tag c = ''h2'') cs))"
    by simp
  then show ?thesis
    using segment_headings [of cs] segment_no_heading [of cs] segment_last_heading [of h post pre]
    by blast
qed

theorem segment_order_witness:
  "tag \<lparr>tag = ''p'', inner_text = ''Intro text'', img_srcs = []\<rparr> \<noteq> ''h2''
   \<and> segment [\<lparr>tag = ''p'', inner_text = ''Intro text'', img_srcs = []\<rparr>] =
       [\<lparr>heading = intro_heading, content = ''Intro text''\<rparr>]
   \<and> tag \<lparr>tag = ''h2'', inner_text = ''FAQ'', img_srcs = []\<rparr> = ''h2''
   \<and> tag \<lparr>tag = ''p'', inner_text = ''Q1'', img_srcs = []\<rparr> \<noteq> ''h2''
   \<and> segment ([\<lparr>tag = ''p'', inner_text = ''Intro text'', img_srcs = []\<rparr>]
        @ \<lparr>tag = ''h2'', inner_text = ''FAQ'', img_srcs = []\<rparr>
        # [\<lparr>tag = ''p'', inner_text = ''Q1'', img_srcs = []\<rparr>]) =
       segment [\<lparr>tag = ''p'', inner_text = ''Intro text'', img_srcs = []\<rparr>]
       @ [\<lparr>heading = ''FAQ'', content = ''Q1''\<rparr>]"
proof -
  have s1: "strip (''Intro text'' @ NL) = ''Intro text''"
    by (simp add: strip_def is_space_def whitespace_def NL_def)
  have s2: "strip ''Intro text'' \<noteq> []"
    by (simp add: strip_def is_space_def whitespace_def)
  have s3: "strip (''Q1'' @ NL) = ''Q1''"
    by (simp add: strip_def is_space_def whitespace_def NL_def)
  have s4: "strip ''Q1'' \<noteq> []"
    by (simp add: strip_def is_space_def whitespace_def)
  show ?thesis
    using segment_order [of "[\<lparr>tag = ''p'', inner_text = ''Intro text'', img_srcs = []\<rparr>]"
        "\<lparr>tag = ''h2'', inner_text = ''FAQ'', img_srcs = []\<rparr>"
        "[\<lparr>tag = ''p'', inner_text = ''Q1'', img_srcs = []\<rparr>]"
        "[\<lparr>tag = ''p'', inner_text = ''Intro text'', img_srcs = []\<rparr>]"] s1 s2 s3 s4
    by (simp add: contributes_def block_of_def)
qed

text \<open>
  C4. No emitted section has empty content. A heading met while nothing has accumulated
  emits nothing and only replaces the heading label; a body whose first child is a
  heading yields no section for the intro (all section headings come from \<open>h2\<close>
  children); and of two headings in a row the first yields no section: the result is
  the same as without it.
\<close>

theorem no_empty_section:
  "(\<forall>s \<in> set (segment cs). content s \<noteq> [])
   \<and> (tag h = ''h2'' \<and> strip (section_content st) = [] \<longrightarrow>
        step st h = st\<lparr>current_section := inner_text h\<rparr>)
   \<and> (tag h = ''h2'' \<longrightarrow>
        subseq (map heading (segment (h # cs)))
          (map inner_text (filter (\<lambda>c. tag c = ''h2'') (h # cs))))
   \<and> (tag h = ''h2'' \<and> tag h' = ''h2'' \<longrightarrow>
        segment (pre @ h # h' # post) = segment (pre @ h' # post))"
proof -
  have "\<forall>s \<in> set (segment cs). content s \<noteq> []"
    using segment_trimmed [of cs] by (simp add: trimmed_def)
  moreover have "tag h = ''h2'' \<and> strip (section_content st) = [] \<longrightarrow>
      step st h = st\<lparr>current_section := inner_text h\<rparr>"
    by (simp add: step_def truthy_def)
  ultimately show ?thesis
    using segment_headings_first [of h cs] segment_two_headings [of h h' pre post]
    by blast
qed

theorem no_empty_section_witness:
  "tag \<lparr>tag = ''h2'', inner_text = ''Setup'', img_srcs = []\<rparr> = ''h2''
   \<and> tag \<lparr>tag = ''h2'', inner_text = ''FAQ'', img_srcs = []\<rparr> = ''h2''
   \<and> strip (section_content seg_init) = []
   \<and> step seg_init \<lparr>tag = ''h2'', inner_text = ''Setup'', img_srcs = []\<rparr> =
       seg_init\<lparr>current_section := ''Setup''\<rparr>
   \<and> segment [\<lparr>tag = ''h2'', inner_text = ''Setup'', img_srcs = []\<rparr>,
               \<lparr>tag = ''h2'', inner_text = ''FAQ'', img_srcs = []\<rparr>,
               \<lparr>tag = ''p'', inner_text = ''Q1'', img_srcs = []\<rparr>] =
       segment [\<lparr>tag = ''h2'', inner_text = ''FAQ'', img_srcs = []\<rparr>,
               \<lparr>tag = ''p'', inner_text = ''Q1'', img_srcs = []\<rparr>]
   \<and> \<lparr>heading = ''FAQ'', content = ''Q1''\<rparr>
       \<in> set (segment [\<lparr>tag = ''h2'', inner_text = ''FAQ'', img_srcs = []\<rparr>,
                          \<lparr>tag = ''p'', inner_text = ''Q1'', img_srcs = []\<rparr>])
   \<and> subseq (map heading (segment [\<lparr>tag = ''h2'', inner_text = ''FAQ'', img_srcs = []\<rparr>,
               \<lparr>tag = ''p'', inner_text = ''Q1'', img_srcs = []\<rparr>])) [''FAQ'']"
  using no_empty_section [of "[\<lparr>tag = ''p'', inner_text = ''Q1'', img_srcs = []\<rparr>]"
      "\<lparr>tag = ''h2'', inner_text = ''FAQ'', img_srcs = []\<rparr>" seg_init
      "\<lparr>tag = ''h2'', inner_text = ''FAQ'', img_srcs = []\<rparr>" "[]" "[]"]
    no_empty_section [of "[]"
      "\<lparr>tag = ''h2'', inner_text = ''Setup'', img_srcs = []\<rparr>" seg_init
      "\<lparr>tag = ''h2'', inner_text = ''FAQ'', img_srcs = []\<rparr>" "[]"
      "[\<lparr>tag = ''p'', inner_text = ''Q1'', img_srcs = []\<rparr>]"]
  by (simp add: segment_def seg_init_def step_def flush_def print_section_def truthy_def
      strip_def is_space_def whitespace_def NL_def)

text \<open>
  C5. A child that is not a heading adds to the section its own text and a line break
  when its text is not blank, and then, whatever its text, one image line for each
  embedded image with a non-empty \<open>src\<close>, in the order of the images; nothing else
  changes. In particular a child with blank text and exactly one image with a non-empty
  \<open>src\<close> adds that single image line and no text.
\<close>

theorem step_images:
  "(tag c \<noteq> ''h2'' \<longrightarrow>
      step st c =
        st\<lparr>section_content :=
             section_content st
             @ (if strip (inner_text c) = [] then [] else inner_text c @ NL)
             @ concat (map (\<lambda>src. ''[Image: '' @ src @ '']'' @ NL)
                 (nonempty_values (img_srcs c)))\<rparr>)
   \<and> (tag c \<noteq> ''h2'' \<and> strip (inner_text c) = [] \<and> nonempty_values (img_srcs c) = [src] \<longrightarrow>
      step st c = st\<lparr>section_content := section_content st @ ''[Image: '' @ src @ '']'' @ NL\<rparr>)"
proof -
  have "image_line = (\<lambda>src. ''[Image: '' @ src @ '']'' @ NL)"
    by (rule ext) (simp add: image_line_def)
  then have "tag c \<noteq> ''h2'' \<longrightarrow>
      step st c =
        st\<lparr>section_content :=
             section_content st
             @ (if strip (inner_text c) = [] then [] else inner_text c @ NL)
             @ concat (map (\<lambda>src. ''[Image: '' @ src @ '']'' @ NL)
                 (nonempty_values (img_srcs c)))\<rparr>"
    by (simp add: step_other block_of_def)
  then show ?thesis by simp
qed

theorem step_images_witness:
  "tag \<lparr>tag = ''div'', inner_text = '' '', img_srcs = [None, Some ''x.png'', Some []]\<rparr> \<noteq> ''h2''
   \<and> strip (inner_text \<lparr>tag = ''div'', inner_text = '' '', img_srcs = [None, Some ''x.png'', Some []]\<rparr>) = []
   \<and> nonempty_values (img_srcs \<lparr>tag = ''div'', inner_text = '' '', img_srcs = [None, Some ''x.png'', Some []]\<rparr>) = [''x.png'']
   \<and> step seg_init \<lparr>tag = ''div'', inner_text = '' '', img_srcs = [None, Some ''x.png'', Some []]\<rparr> =
       seg_init\<lparr>section_content := ''[Image: x.png]'' @ NL\<rparr>"
proof -
  have "strip '' '' = []"
    by (simp add: strip_def is_space_def whitespace_def)
  then show ?thesis
    using step_images [of "\<lparr>tag = ''div'', inner_text = '' '', img_srcs = [None, Some ''x.png'', Some []]\<rparr>"
        seg_init "''x.png''"]
    by (simp add: seg_init_def)
qed

text \<open>
  C8 (as amended). The heading of every emitted section is the intro sentinel or the
  visible text of an \<open>h2\<close> child exactly as read, without trimming; the content of
  every emitted section, the accumulated text and image lines as one string, is not
  empty and has no whitespace at either end, so stripping it again changes nothing.
\<close>

theorem segment_strings:
  "\<forall>s \<in> set (segment cs).
     (heading s = intro_heading \<or> (\<exists>c \<in> set cs. tag c = ''h2'' \<and> heading s = inner_text c))
     \<and> content s \<noteq> [] \<and> \<not> is_space (hd (content s)) \<and> \<not> is_space (last (content s))
     \<and> strip (content s) = content s"
proof
  fix s assume s: "s \<in> set (segment cs)"
  with segment_trimmed have t: "trimmed (content s)" by blast
  then have "strip (content s) = content s"
    by (simp add: trimmed_def strip_fixed)
  with t segment_heading_origin [OF s] show
    "(heading s = intro_heading \<or> (\<exists>c \<in> set cs. tag c = ''h2'' \<and> heading s = inner_text c))
     \<and> content s \<noteq> [] \<and> \<not> is_space (hd (content s)) \<and> \<not> is_space (last (content s))
     \<and> strip (content s) = content s"
    by (simp add: trimmed_def)
qed

lemma segment_untrimmed_example:
  "segment [\<lparr>tag = ''h2'', inner_text = '' A '', img_srcs = []\<rparr>,
            \<lparr>tag = ''p'', inner_text = ''x  '', img_srcs = []\<rparr>,
            \<lparr>tag = ''p'', inner_text = ''y'', img_srcs = []\<rparr>] =
     [\<lparr>heading = '' A '', content = ''x  '' @ NL @ ''y''\<rparr>]"
  by (simp add: segment_def seg_init_def step_def flush_def print_section_def truthy_def
      strip_def is_space_def whitespace_def NL_def)

theorem segment_strings_witness:
  "\<lparr>heading = '' A '', content = ''x  '' @ NL @ ''y''\<rparr>
     \<in> set (segment [\<lparr>tag = ''h2'', inner_text = '' A '', img_srcs = []\<rparr>,
            \<lparr>tag = ''p'', inner_text = ''x  '', img_srcs = []\<rparr>,
            \<lparr>tag = ''p'', inner_text = ''y'', img_srcs = []\<rparr>])
   \<and> strip (''x  '' @ NL @ ''y'') = ''x  '' @ NL @ ''y''"
  using segment_strings [of "[\<lparr>tag = ''h2'', inner_text = '' A '', img_srcs = []\<rparr>,
            \<lparr>tag = ''p'', inner_text = ''x  '', img_srcs = []\<rparr>,
            \<lparr>tag = ''p'', inner_text = ''y'', img_srcs = []\<rparr>]"]
  by (simp add: segment_untrimmed_example)

text \<open>
  C8 (as stated) fails: a heading read as \<open>" A "\<close> is emitted with its blanks, and the
  text \<open>"x  "\<close> keeps its trailing blanks inside the section's content.
\<close>

theorem heading_trim_counterexample:
  "map heading (segment [\<lparr>tag = ''h2'', inner_text = '' A '', img_srcs = []\<rparr>,
            \<lparr>tag = ''p'', inner_text = ''x  '', img_srcs = []\<rparr>,
            \<lparr>tag = ''p'', inner_text = ''y'', img_srcs = []\<rparr>]) = ['' A '']
   \<and> strip '' A '' = ''A''
   \<and> '' A '' \<noteq> strip '' A ''
   \<and> map content (segment [\<lparr>tag = ''h2'', inner_text = '' A '', img_srcs = []\<rparr>,
            \<lparr>tag = ''p'', inner_text = ''x  '', img_srcs = []\<rparr>,
            \<lparr>tag = ''p'', inner_text = ''y'', img_srcs = []\<rparr>]) = [''x  '' @ NL @ ''y'']
   \<and> strip ''x  '' = ''x''"
  by (simp add: segment_untrimmed_example) (simp add: strip_def is_space_def whitespace_def)

section \<open>Properties of the scrapers\<close>

text \<open>
  C6 (as amended). On a loaded page whose body selector matches nothing neither scraper
  raises, and neither returns a value: both return normally after printing.
  \<open>scrape_article_with_sections\<close> makes exactly three \<open>print\<close> calls, the URL line, the
  title and the line \<open>[No Body Found]\<close>, so it prints no section and does not run the
  segmentation loop; its console text ends with that line. \<open>scrape_single_article\<close>
  prints \<open>[No Body Found]\<close> in the place of the body text. The marker is part of the
  printed text and nothing more.
\<close>

theorem missing_body:
  "body_el pg = None \<longrightarrow>
     scrape_article_with_sections url (Inr pg) =
       ([''Scraping: '' @ url, NL @ ''Title:'' @ NL @ title_of pg, ''[No Body Found]''], Inr ())
     \<and> console (fst (scrape_article_with_sections url (Inr pg))) =
         ''Scraping: '' @ url @ NL @ NL @ ''Title:'' @ NL @ title_of pg @ NL
         @ ''[No Body Found]'' @ NL
     \<and> scrape_single_article url (Inr pg) =
       ([''Scraping: '' @ url, NL @ ''Title:'', title_of pg,
         NL @ ''Body Text (first 500 chars):'', ''[No Body Found]''], Inr ())"
  by (simp add: scrape_article_with_sections_def scrape_single_article_def console_def)

theorem missing_body_witness:
  "body_el \<lparr>title_el = None, body_el = None\<rparr> = None
   \<and> scrape_article_with_sections ''u'' (Inr \<lparr>title_el = None, body_el = None\<rparr>) =
       ([''Scraping: u'', NL @ ''Title:'' @ NL @ ''[No Title Found]'', ''[No Body Found]''], Inr ())
   \<and> console (fst (scrape_article_with_sections ''u'' (Inr \<lparr>title_el = None, body_el = None\<rparr>))) =
       ''Scraping: u'' @ NL @ NL @ ''Title:'' @ NL @ ''[No Title Found]'' @ NL
       @ ''[No Body Found]'' @ NL
   \<and> scrape_single_article ''u'' (Inr \<lparr>title_el = None, body_el = None\<rparr>) =
        ([''Scraping: u'', NL @ ''Title:'', ''[No Title Found]'',
          NL @ ''Body Text (first 500 chars):'', ''[No Body Found]''], Inr ())"
proof -
  have none: "body_el \<lparr>title_el = None, body_el = None\<rparr> = None"
    by simp
  have title: "title_of \<lparr>title_el = None, body_el = None\<rparr> = ''[No Title Found]''"
    by (simp add: title_of_def)
  from missing_body [of "\<lparr>title_el = None, body_el = None\<rparr>" "''u''"] none
  have "scrape_article_with_sections ''u'' (Inr \<lparr>title_el = None, body_el = None\<rparr>) =
       ([''Scraping: '' @ ''u'',
         NL @ ''Title:'' @ NL @ title_of \<lparr>title_el = None, body_el = None\<rparr>,
         ''[No Body Found]''], Inr ())
     \<and> console (fst (scrape_article_with_sections ''u''
           (Inr \<lparr>title_el = None, body_el = None\<rparr>))) =
         ''Scraping: '' @ ''u'' @ NL @ NL @ ''Title:'' @ NL
         @ title_of \<lparr>title_el = None, body_el = None\<rparr> @ NL @ ''[No Body Found]'' @ NL
     \<and> scrape_single_article ''u'' (Inr \<lparr>title_el = None, body_el = None\<rparr>) =
       ([''Scraping: '' @ ''u'', NL @ ''Title:'',
         title_of \<lparr>title_el = None, body_el = None\<rparr>,
         NL @ ''Body Text (first 500 chars):'', ''[No Body Found]''], Inr ())"
    by (rule mp)
  with none show ?thesis
    unfolding title by (simp add: console_def)
qed

text \<open>
  C6 (as stated) fails: the scrapers return no Article, and the marker is not a
  detectable indicator. \<open>scrape_single_article\<close> gives the same result for a page
  without a body and for a page whose body text is \<open>[No Body Found]\<close>; the console text
  of \<open>scrape_article_with_sections\<close> is the same for a page without a body titled \<open>T\<close>
  and for a page with an empty body whose title is \<open>T\<close>, a line break and
  \<open>[No Body Found]\<close>; and both functions end with the same return in either case.
\<close>

theorem missing_body_counterexample:
  "body_el \<lparr>title_el = Some ''T'', body_el = None\<rparr>
     \<noteq> body_el \<lparr>title_el = Some ''T'',
                 body_el = Some \<lparr>body_text = ''[No Body Found]'', body_children = []\<rparr>\<rparr>
   \<and> scrape_single_article ''u'' (Inr \<lparr>title_el = Some ''T'', body_el = None\<rparr>) =
       scrape_single_article ''u''
         (Inr \<lparr>title_el = Some ''T'',
               body_el = Some \<lparr>body_text = ''[No Body Found]'', body_children = []\<rparr>\<rparr>)
   \<and> console (fst (scrape_article_with_sections ''u''
         (Inr \<lparr>title_el = Some ''T'', body_el = None\<rparr>))) =
       console (fst (scrape_article_with_sections ''u''
         (Inr \<lparr>title_el = Some (''T'' @ NL @ ''[No Body Found]''),
               body_el = Some \<lparr>body_text = [], body_children = []\<rparr>\<rparr>)))
   \<and> snd (scrape_article_with_sections ''u''
         (Inr \<lparr>title_el = Some ''T'', body_el = None\<rparr>)) =
       snd (scrape_article_with_sections ''u''
         (Inr \<lparr>title_el = Some (''T'' @ NL @ ''[No Body Found]''),
               body_el = Some \<lparr>body_text = [], body_children = []\<rparr>\<rparr>))"
  by (simp add: scrape_single_article_def scrape_article_with_sections_def console_def
      title_of_def segment_def seg_init_def flush_def truthy_def strip_def)

end
